theory Spec2Isabelle
  imports Main
begin

section \<open>The generator script \<^verbatim>\<open>kernel/arch/i386/genisr.py\<close>\<close>

subsection \<open>The output file\<close>

text \<open>
  The script opens \<^verbatim>\<open>isr.asm\<close> for writing, calls \<^verbatim>\<open>of.write\<close> many times and closes
  the file. A file system is a map from file names to contents; the file object holds its
  name and the text written so far. Opening with mode \<^verbatim>\<open>"w"\<close> starts from the empty
  text whatever the file held before, \<^verbatim>\<open>write\<close> appends, and \<^verbatim>\<open>close\<close> stores the text
  under the file's name. The script opens the file in text mode and writes ASCII only, so
  the text is modelled as the characters handed to \<^verbatim>\<open>write\<close>; a failing \<^verbatim>\<open>open\<close> is outside
  the generation logic and is not modelled.
\<close>

type_synonym fs = "string \<rightharpoonup> string"

record ofile =
  fname :: string
  data :: string

definition open_w :: "string \<Rightarrow> ofile" where
  "open_w nm = \<lparr>fname = nm, data = []\<rparr>"

definition of_write :: "string \<Rightarrow> ofile \<Rightarrow> ofile" where
  "of_write s f = f\<lparr>data := data f @ s\<rparr>"

definition of_close :: "ofile \<Rightarrow> fs \<Rightarrow> fs" where
  "of_close f files = files(fname f \<mapsto> data f)"

subsection \<open>Formatting an index\<close>

text \<open>
  The f-strings \<^verbatim>\<open>f"global isr{i}\n"\<close> format the loop variable in decimal. The loop
  variable comes from \<^verbatim>\<open>range(32)\<close>, so it is never negative and is a \<^typ>\<open>nat\<close> here.
\<close>

definition digit_char :: "nat \<Rightarrow> char" where
  "digit_char d = ''0123456789'' ! d"

fun str_nat :: "nat \<Rightarrow> string" where
  "str_nat n = (if n < 10 then [digit_char n] else str_nat (n div 10) @ [digit_char (n mod 10)])"

declare str_nat.simps [simp del]

subsection \<open>The script\<close>

definition eisr :: "nat list" where
  "eisr = [8, 10, 11, 12, 13, 14]"

text \<open>The body of the first loop: \<^verbatim>\<open>of.write(f"global isr{i}\n")\<close>.\<close>

definition global_iter :: "nat \<Rightarrow> ofile \<Rightarrow> ofile" where
  "global_iter i f = of_write (''global isr'' @ str_nat i @ ''\<newline>'') f"

text \<open>
  The body of the second loop. The branches for 0 and 8 end in \<^verbatim>\<open>continue\<close>, so
  nothing of the uniform part runs for them.
\<close>

definition isr_iter :: "nat \<Rightarrow> ofile \<Rightarrow> ofile" where
  "isr_iter i f =
     (if i = 0 then
        (let f = of_write ''\<newline>; Divide by 0\<newline>'' f;
             f = of_write ''    cli ; Disable interrupts\<newline>'' f;
             f = of_write ''    push byte 0 ; push a dummy error code\<newline>'' f;
             f = of_write ''    push byte 0 ; push the isr code\<newline>'' f;
             f = of_write ''    jmp_isr_common_stub\<newline>'' f
         in f)
      else if i = 8 then
        (let f = of_write ''\<newline>; Double Fault Exception\<newline>'' f;
             f = of_write ''    cli ; Disable interrupts\<newline>'' f;
             f = of_write
                   ''    ; We don't push a dummy error code since this interrupt comes with one\<newline>'' f;
             f = of_write ''    push byte 0 ; push the isr code\<newline>'' f;
             f = of_write ''    jmp_isr_common_stub\<newline>'' f
         in f)
      else
        (let f = of_write ''\<newline>'' f;
             f = of_write (''isr'' @ str_nat i @ '':\<newline>'') f;
             f = of_write ''    cli\<newline>'' f;
             f = (if i \<notin> set eisr then of_write ''    push byte 0\<newline>'' f else f);
             f = of_write (''    push byte '' @ str_nat i @ ''\<newline>'') f;
             f = of_write ''    jmp isr_common_stub\<newline>'' f
         in f))"

text \<open>The whole script; \<^verbatim>\<open>range(32)\<close> is the list \<open>[0..<32]\<close> and each \<^verbatim>\<open>for\<close> a fold over it.\<close>

definition genisr :: "fs \<Rightarrow> fs" where
  "genisr files =
     (let f = open_w ''isr.asm'';
          f = of_write ''; A bunch of Interrupt Service Routines (ISRs)\<newline>'' f;
          f = of_write ''; For info on each ISR see isr.md in Documentation\<newline>'' f;
          f = fold global_iter [0..<32] f;
          f = of_write ''\<newline>; ISR definitions\<newline>'' f;
          f = fold isr_iter [0..<32] f
      in of_close f files)"

section \<open>Reading the generated assembly\<close>

text \<open>
  The claims speak of declarations, labels, pushes and jumps, so the text is read back the
  way an assembler reads it: split into lines, the comment after \<open>;\<close> dropped, the rest
  split into words at spaces and classified by its mnemonic. A label definition is a single
  word that ends with a colon; \<open>push byte n\<close> pushes the decimal literal \<open>n\<close>; \<open>jmp t\<close> jumps
  to the symbol \<open>t\<close>. A line of any other shape is kept as its words under \<open>Other\<close>: it is
  neither a push nor a jump nor a label definition of the form \<open>isr<N>:\<close>.
\<close>

fun split_on :: "'a \<Rightarrow> 'a list \<Rightarrow> 'a list list" where
  "split_on d [] = [[]]"
| "split_on d (c # cs) =
     (if c = d then [] # split_on d cs
      else (case split_on d cs of [] \<Rightarrow> [[c]] | l # ls \<Rightarrow> (c # l) # ls))"

definition lines_of :: "string \<Rightarrow> string list" where
  "lines_of s = (let ls = split_on CHR ''\<newline>'' s in if last ls = [] then butlast ls else ls)"

definition tokens :: "string \<Rightarrow> string list" where
  "tokens s = filter (\<lambda>w. w \<noteq> []) (split_on CHR '' '' s)"

definition is_digit :: "char \<Rightarrow> bool" where
  "is_digit c = (c \<in> set ''0123456789'')"

definition parse_nat :: "string \<Rightarrow> nat option" where
  "parse_nat s =
     (if s \<noteq> [] \<and> list_all is_digit s
      then Some (fold (\<lambda>c n. 10 * n + (of_char c - 48)) s 0) else None)"

datatype asm_line =
    Blank
  | Comment string
  | Label string
  | Global string
  | Cli
  | Push nat
  | Jmp string
  | Other "string list"

fun classify :: "string list \<Rightarrow> asm_line" where
  "classify [t] =
     (if t = ''cli'' then Cli
      else if t \<noteq> [] \<and> last t = CHR '':'' then Label (butlast t)
      else Other [t])"
| "classify [a, b] =
     (if a = ''jmp'' then Jmp b
      else if a = ''global'' then Global b
      else Other [a, b])"
| "classify [a, b, c] =
     (if a = ''push'' \<and> b = ''byte''
      then (case parse_nat c of Some n \<Rightarrow> Push n | None \<Rightarrow> Other [a, b, c])
      else Other [a, b, c])"
| "classify ts = Other ts"

definition parse_line :: "string \<Rightarrow> asm_line" where
  "parse_line l =
     (let ts = tokens (takeWhile (\<lambda>c. c \<noteq> CHR '';'') l) in
      if ts \<noteq> [] then classify ts
      else if CHR '';'' \<in> set l then Comment (tl (dropWhile (\<lambda>c. c \<noteq> CHR '';'') l))
      else Blank)"

definition parse_asm :: "string \<Rightarrow> asm_line list" where
  "parse_asm s = map parse_line (lines_of s)"

text \<open>The values pushed, in order, and the labels defined.\<close>

fun pushes :: "asm_line list \<Rightarrow> nat list" where
  "pushes [] = []"
| "pushes (Push n # ls) = n # pushes ls"
| "pushes (_ # ls) = pushes ls"

fun labels :: "asm_line list \<Rightarrow> string list" where
  "labels [] = []"
| "labels (Label s # ls) = s # labels ls"
| "labels (_ # ls) = labels ls"

fun globals :: "asm_line list \<Rightarrow> string list" where
  "globals [] = []"
| "globals (Global s # ls) = s # globals ls"
| "globals (_ # ls) = globals ls"

text \<open>The index that a symbol \<open>isr<N>\<close> names.\<close>

definition isr_index :: "string \<Rightarrow> nat option" where
  "isr_index s = (if take 3 s = ''isr'' then parse_nat (drop 3 s) else None)"

subsection \<open>The Output Document and its Stub Records\<close>

text \<open>The text the script leaves in \<^verbatim>\<open>isr.asm\<close>, and the texts one iteration of the first
  and of the second loop write.\<close>

definition document :: string where
  "document = the (genisr Map.empty ''isr.asm'')"

definition global_text :: "nat \<Rightarrow> string" where
  "global_text i = data (global_iter i (open_w ''isr.asm''))"

definition stub_text :: "nat \<Rightarrow> string" where
  "stub_text i = data (isr_iter i (open_w ''isr.asm''))"

text \<open>
  Every iteration of the second loop starts with an empty line, so blank lines divide the
  document into blocks: the header with the declarations, the comment that introduces the
  definitions, and then the Stub Records, one per iteration.
\<close>

definition blocks :: "asm_line list \<Rightarrow> asm_line list list" where
  "blocks ls = split_on Blank ls"

definition doc_lines :: "asm_line list" where
  "doc_lines = parse_asm document"

definition decl_block :: "asm_line list" where
  "decl_block = hd (blocks doc_lines)"

definition doc_records :: "asm_line list list" where
  "doc_records = drop 2 (blocks doc_lines)"

text \<open>The record of index \<open>i\<close> as the loop body writes it, without the separating blank line.\<close>

definition stub_record :: "nat \<Rightarrow> asm_line list" where
  "stub_record i = filter (\<lambda>l. l \<noteq> Blank) (parse_asm (stub_text i))"

text \<open>
  In a record the last push is the push of the vector number; the pushes before it are
  dummy error-code pushes.
\<close>

definition vector_push :: "asm_line list \<Rightarrow> nat option" where
  "vector_push r = (case rev (pushes r) of [] \<Rightarrow> None | n # _ \<Rightarrow> Some n)"

definition dummy_pushes :: "asm_line list \<Rightarrow> nat list" where
  "dummy_pushes r = butlast (pushes r)"

text \<open>A text is terminated when it is empty or ends with a newline.\<close>

definition terminated :: "string \<Rightarrow> bool" where
  "terminated s = (s = [] \<or> last s = CHR ''\<newline>'')"

section \<open>Properties of the model\<close>

subsection \<open>Formatting and reading back an index\<close>

lemma below_10: "d < 10 \<Longrightarrow> d \<in> {0, 1, 2, 3, 4, 5, 6, 7, 8, 9::nat}"
  by auto

lemma digit_char_is_digit: "d < 10 \<Longrightarrow> is_digit (digit_char d)"
proof -
  assume "d < 10"
  then have "d \<in> {0, 1, 2, 3, 4, 5, 6, 7, 8, 9::nat}" by (rule below_10)
  then show ?thesis
    unfolding is_digit_def digit_char_def by auto
qed

lemma digit_char_val: "d < 10 \<Longrightarrow> of_char (digit_char d) - 48 = d"
proof -
  assume "d < 10"
  then have "d \<in> {0, 1, 2, 3, 4, 5, 6, 7, 8, 9::nat}" by (rule below_10)
  then show ?thesis
    unfolding digit_char_def by auto
qed

lemma str_nat_digits: "list_all is_digit (str_nat n)"
proof (induction n rule: str_nat.induct)
  case (1 n)
  show ?case
  proof (cases "n < 10")
    case True
    then show ?thesis by (simp add: str_nat.simps [of n] digit_char_is_digit)
  next
    case False
    with 1 show ?thesis by (simp add: str_nat.simps [of n] digit_char_is_digit)
  qed
qed

lemma str_nat_nonempty: "str_nat n \<noteq> []"
  by (simp add: str_nat.simps [of n])

lemma str_nat_value: "fold (\<lambda>c n. 10 * n + (of_char c - 48)) (str_nat n) 0 = n"
proof (induction n rule: str_nat.induct)
  case (1 n)
  show ?case
  proof (cases "n < 10")
    case True
    then show ?thesis by (simp add: str_nat.simps [of n] digit_char_val)
  next
    case False
    with 1 show ?thesis by (simp add: str_nat.simps [of n] digit_char_val)
  qed
qed

lemma parse_nat_str_nat: "parse_nat (str_nat n) = Some n"
  by (simp add: parse_nat_def str_nat_digits str_nat_nonempty str_nat_value)

lemma parse_nat_zero: "parse_nat ''0'' = Some 0"
  by (simp add: parse_nat_def is_digit_def)

lemma str_nat_chars: "c \<in> set (str_nat n) \<Longrightarrow> is_digit c"
  using str_nat_digits [of n] by (simp add: list_all_iff)

lemma not_digit:
  "\<not> is_digit CHR '' ''" "\<not> is_digit CHR '';''" "\<not> is_digit CHR '':''" "\<not> is_digit CHR ''\<newline>''"
  by (simp_all add: is_digit_def)

lemma str_nat_absent: "\<not> is_digit c \<Longrightarrow> c \<notin> set (str_nat n)"
  using str_nat_chars by blast

subsection \<open>Splitting\<close>

lemma split_on_nonempty: "split_on d s \<noteq> []"
  by (induction s) (auto split: list.splits)

lemma split_on_absent: "d \<notin> set s \<Longrightarrow> split_on d s = [s]"
  by (induction s) auto

lemma split_on_append: "split_on d (a @ d # b) = split_on d a @ split_on d b"
  by (induction a) (auto split: list.splits simp: split_on_nonempty)

lemma split_on_prefix:
  "d \<notin> set a \<Longrightarrow> split_on d (a @ b) = (case split_on d b of [] \<Rightarrow> [a] | l # ls \<Rightarrow> (a @ l) # ls)"
  by (induction a) (auto split: list.splits simp: split_on_nonempty)

lemma split_on_str_nat:
  "\<not> is_digit d \<Longrightarrow>
   split_on d (str_nat n @ b) = (case split_on d b of [] \<Rightarrow> [str_nat n] | l # ls \<Rightarrow> (str_nat n @ l) # ls)"
  by (simp add: split_on_prefix str_nat_absent)

lemma split_on_str_nat_only: "\<not> is_digit d \<Longrightarrow> split_on d (str_nat n) = [str_nat n]"
  by (simp add: split_on_absent str_nat_absent)

lemma takeWhile_str_nat:
  "takeWhile (\<lambda>c. c \<noteq> CHR '';'') (str_nat n @ b) = str_nat n @ takeWhile (\<lambda>c. c \<noteq> CHR '';'') b"
  by (rule takeWhile_append2) (auto simp: str_nat_absent not_digit)

lemma takeWhile_str_nat_only: "takeWhile (\<lambda>c. c \<noteq> CHR '';'') (str_nat n) = str_nat n"
  using takeWhile_str_nat [of n "[]"] by simp

lemmas read_line =
  parse_asm_def lines_of_def parse_line_def tokens_def Let_def
  str_nat_nonempty parse_nat_str_nat parse_nat_zero not_digit str_nat_absent
  split_on_str_nat split_on_str_nat_only takeWhile_str_nat takeWhile_str_nat_only

subsection \<open>What one iteration writes\<close>

lemma data_of_write: "data (of_write s f) = data f @ s"
  by (simp add: of_write_def)

lemma fname_of_write: "fname (of_write s f) = fname f"
  by (simp add: of_write_def)

lemma data_global_iter: "data (global_iter i f) = data f @ global_text i"
  by (simp add: global_iter_def global_text_def data_of_write open_w_def)

lemma data_isr_iter: "data (isr_iter i f) = data f @ stub_text i"
  by (simp add: isr_iter_def stub_text_def data_of_write open_w_def Let_def)

lemma fname_global_iter: "fname (global_iter i f) = fname f"
  by (simp add: global_iter_def fname_of_write)

lemma fname_isr_iter: "fname (isr_iter i f) = fname f"
  by (simp add: isr_iter_def fname_of_write Let_def)

lemma parse_global_text: "parse_asm (global_text i) = [Global (''isr'' @ str_nat i)]"
  by (simp add: global_text_def global_iter_def of_write_def open_w_def read_line)

lemma parse_stub_text_0:
  "parse_asm (stub_text 0) =
     [Blank, Comment '' Divide by 0'', Cli, Push 0, Push 0, Other [''jmp_isr_common_stub'']]"
  by (simp add: stub_text_def isr_iter_def of_write_def open_w_def read_line)

lemma parse_stub_text_8:
  "parse_asm (stub_text 8) =
     [Blank, Comment '' Double Fault Exception'', Cli,
      Comment '' We don't push a dummy error code since this interrupt comes with one'',
      Push 0, Other [''jmp_isr_common_stub'']]"
  by (simp add: stub_text_def isr_iter_def of_write_def open_w_def read_line)

lemma parse_stub_text_uniform:
  "i \<noteq> 0 \<Longrightarrow> i \<noteq> 8 \<Longrightarrow>
   parse_asm (stub_text i) =
     [Blank, Label (''isr'' @ str_nat i), Cli] @ (if i \<in> set eisr then [] else [Push 0]) @
     [Push i, Jmp ''isr_common_stub'']"
  by (simp add: stub_text_def isr_iter_def of_write_def open_w_def read_line)

lemma stub_record_0:
  "stub_record 0 = [Comment '' Divide by 0'', Cli, Push 0, Push 0, Other [''jmp_isr_common_stub'']]"
  by (simp add: stub_record_def parse_stub_text_0)

lemma stub_record_8:
  "stub_record 8 =
     [Comment '' Double Fault Exception'', Cli,
      Comment '' We don't push a dummy error code since this interrupt comes with one'',
      Push 0, Other [''jmp_isr_common_stub'']]"
  by (simp add: stub_record_def parse_stub_text_8)

lemma stub_record_uniform:
  "i \<noteq> 0 \<Longrightarrow> i \<noteq> 8 \<Longrightarrow>
   stub_record i =
     [Label (''isr'' @ str_nat i), Cli] @ (if i \<in> set eisr then [] else [Push 0]) @
     [Push i, Jmp ''isr_common_stub'']"
  by (simp add: stub_record_def parse_stub_text_uniform)

lemma parse_stub_text: "parse_asm (stub_text i) = Blank # stub_record i"
proof -
  consider "i = 0" | "i = 8" | "i \<noteq> 0" "i \<noteq> 8" by blast
  then show ?thesis
  proof cases
    case 1
    then show ?thesis by (simp add: stub_record_def parse_stub_text_0)
  next
    case 2
    then show ?thesis by (simp add: stub_record_def parse_stub_text_8)
  next
    case 3
    then show ?thesis by (simp add: stub_record_def parse_stub_text_uniform)
  qed
qed

lemma stub_record_no_blank: "Blank \<notin> set (stub_record i)"
  by (simp add: stub_record_def)

lemma terminated_global_text: "terminated (global_text i)"
  by (simp add: terminated_def global_text_def global_iter_def of_write_def open_w_def)

lemma terminated_stub_text: "terminated (stub_text i)"
  by (simp add: terminated_def stub_text_def isr_iter_def of_write_def open_w_def Let_def)

subsection \<open>The text of the document\<close>

lemma fold_data:
  assumes "\<And>i f. data (g i f) = data f @ t i"
  shows "data (fold g xs f) = data f @ concat (map t xs)"
  by (induction xs arbitrary: f) (simp_all add: assms)

lemma fold_fname:
  assumes "\<And>i f. fname (g i f) = fname f"
  shows "fname (fold g xs f) = fname f"
  by (induction xs arbitrary: f) (simp_all add: assms)

lemma genisr_result:
  "genisr files =
     files(''isr.asm'' \<mapsto>
       ''; A bunch of Interrupt Service Routines (ISRs)\<newline>'' @
       ''; For info on each ISR see isr.md in Documentation\<newline>'' @
       concat (map global_text [0..<32]) @
       ''\<newline>; ISR definitions\<newline>'' @
       concat (map stub_text [0..<32]))"
  unfolding genisr_def Let_def of_close_def
  by (simp only: fold_fname [of isr_iter, OF fname_isr_iter] fold_fname [of global_iter, OF fname_global_iter]
      fold_data [of isr_iter stub_text, OF data_isr_iter] fold_data [of global_iter global_text, OF data_global_iter]
      fname_of_write data_of_write)
     (simp add: open_w_def)

lemma document_text:
  "document =
     ''; A bunch of Interrupt Service Routines (ISRs)\<newline>'' @
     ''; For info on each ISR see isr.md in Documentation\<newline>'' @
     concat (map global_text [0..<32]) @
     ''\<newline>; ISR definitions\<newline>'' @
     concat (map stub_text [0..<32])"
  unfolding document_def genisr_result by simp

lemma genisr_document: "genisr files = files(''isr.asm'' \<mapsto> document)"
  unfolding document_text by (rule genisr_result)

subsection \<open>Reading a text piece by piece\<close>

lemma lines_of_terminated: "lines_of (a @ [CHR ''\<newline>'']) = split_on CHR ''\<newline>'' a"
  using split_on_append [of "CHR ''\<newline>''" a "[]"]
  by (simp add: lines_of_def)

lemma lines_of_Nil: "lines_of [] = []"
  by (simp add: lines_of_def)

lemma terminated_cases:
  assumes "terminated s"
  obtains "s = []" | a where "s = a @ [CHR ''\<newline>'']"
  using assms unfolding terminated_def
  by (metis append_butlast_last_id)

lemma lines_of_append:
  assumes "terminated x" and "terminated y"
  shows "lines_of (x @ y) = lines_of x @ lines_of y"
proof -
  from assms(1) show ?thesis
  proof (cases rule: terminated_cases)
    case 1
    then show ?thesis by (simp add: lines_of_Nil)
  next
    case (2 a)
    note x = this
    from assms(2) show ?thesis
    proof (cases rule: terminated_cases)
      case 1
      then show ?thesis by (simp add: lines_of_Nil)
    next
      case (2 b)
      have "lines_of (x @ y) = lines_of ((a @ CHR ''\<newline>'' # b) @ [CHR ''\<newline>''])"
        using x 2 by simp
      also have "\<dots> = split_on CHR ''\<newline>'' a @ split_on CHR ''\<newline>'' b"
        by (simp only: lines_of_terminated split_on_append)
      finally show ?thesis using x 2 by (simp add: lines_of_terminated)
    qed
  qed
qed

lemma terminated_append: "terminated x \<Longrightarrow> terminated y \<Longrightarrow> terminated (x @ y)"
  by (cases "y = []") (simp_all add: terminated_def)

lemma terminated_concat: "(\<And>x. x \<in> set xs \<Longrightarrow> terminated x) \<Longrightarrow> terminated (concat xs)"
  by (induction xs) (simp_all add: terminated_append, simp add: terminated_def)

lemma parse_asm_append:
  "terminated x \<Longrightarrow> terminated y \<Longrightarrow> parse_asm (x @ y) = parse_asm x @ parse_asm y"
  by (simp add: parse_asm_def lines_of_append)

lemma parse_asm_concat:
  "(\<And>x. x \<in> set xs \<Longrightarrow> terminated x) \<Longrightarrow> parse_asm (concat xs) = concat (map parse_asm xs)"
proof (induction xs)
  case Nil
  show ?case by (simp add: parse_asm_def lines_of_Nil)
next
  case (Cons x xs)
  then show ?case by (simp add: parse_asm_append terminated_concat)
qed

subsection \<open>The lines and records of the document\<close>

lemma concat_singletons: "concat (map (\<lambda>i. [h i]) xs) = map h xs"
  by (induction xs) simp_all

lemma doc_lines_eq:
  "doc_lines =
     [Comment '' A bunch of Interrupt Service Routines (ISRs)'',
      Comment '' For info on each ISR see isr.md in Documentation''] @
     map (\<lambda>i. Global (''isr'' @ str_nat i)) [0..<32] @
     [Blank, Comment '' ISR definitions''] @
     concat (map (\<lambda>i. Blank # stub_record i) [0..<32])"
proof -
  let ?h1 = "''; A bunch of Interrupt Service Routines (ISRs)\<newline>''"
  let ?h2 = "''; For info on each ISR see isr.md in Documentation\<newline>''"
  let ?gs = "concat (map global_text [0..<32])"
  let ?sep = "''\<newline>; ISR definitions\<newline>''"
  let ?ss = "concat (map stub_text [0..<32])"
  have t1: "terminated ?h1" and t2: "terminated ?h2" and t4: "terminated ?sep"
    by (simp_all add: terminated_def)
  have t3: "terminated ?gs"
    by (rule terminated_concat) (auto simp: terminated_global_text)
  have t5: "terminated ?ss"
    by (rule terminated_concat) (auto simp: terminated_stub_text)
  have p1: "parse_asm ?h1 = [Comment '' A bunch of Interrupt Service Routines (ISRs)'']"
    by (simp add: read_line)
  have p2: "parse_asm ?h2 = [Comment '' For info on each ISR see isr.md in Documentation'']"
    by (simp add: read_line)
  have p4: "parse_asm ?sep = [Blank, Comment '' ISR definitions'']"
    by (simp add: read_line)
  have p3: "parse_asm ?gs = map (\<lambda>i. Global (''isr'' @ str_nat i)) [0..<32]"
    by (subst parse_asm_concat)
       (auto simp: terminated_global_text comp_def parse_global_text concat_singletons
             simp del: upt_rec_numeral)
  have p5: "parse_asm ?ss = concat (map (\<lambda>i. Blank # stub_record i) [0..<32])"
    by (subst parse_asm_concat)
       (auto simp: terminated_stub_text comp_def parse_stub_text simp del: upt_rec_numeral)
  have "doc_lines = parse_asm (?h1 @ ?h2 @ ?gs @ ?sep @ ?ss)"
    unfolding doc_lines_def document_text ..
  also have "\<dots> = parse_asm ?h1 @ parse_asm ?h2 @ parse_asm ?gs @ parse_asm ?sep @ parse_asm ?ss"
    using t1 t2 t3 t4 t5 by (simp only: parse_asm_append terminated_append)
  finally show ?thesis
    unfolding p1 p2 p3 p4 p5 by simp
qed

lemma split_on_records:
  "(\<And>r. r \<in> set rs \<Longrightarrow> d \<notin> set r) \<Longrightarrow> split_on d (concat (map (\<lambda>r. d # r) rs)) = [] # rs"
proof (induction rs)
  case Nil
  show ?case by simp
next
  case (Cons r rs)
  then have "split_on d (concat (map (\<lambda>r. d # r) rs)) = [] # rs" and "d \<notin> set r"
    by simp_all
  then show ?case by (simp add: split_on_prefix)
qed

lemma blocks_doc_lines:
  "blocks doc_lines =
     [[Comment '' A bunch of Interrupt Service Routines (ISRs)'',
       Comment '' For info on each ISR see isr.md in Documentation''] @
      map (\<lambda>i. Global (''isr'' @ str_nat i)) [0..<32],
      [Comment '' ISR definitions'']] @
     map stub_record [0..<32]"
proof -
  let ?hd = "[Comment '' A bunch of Interrupt Service Routines (ISRs)'',
       Comment '' For info on each ISR see isr.md in Documentation''] @
      map (\<lambda>i. Global (''isr'' @ str_nat i)) [0..<32]"
  let ?recs = "map stub_record [0..<32]"
  have recs: "concat (map (\<lambda>i. Blank # stub_record i) [0..<32]) = concat (map (\<lambda>r. Blank # r) ?recs)"
    by (simp add: comp_def del: upt_rec_numeral)
  have "split_on Blank (concat (map (\<lambda>r. Blank # r) ?recs)) = [] # ?recs"
    by (rule split_on_records) (auto simp: stub_record_no_blank simp del: upt_rec_numeral)
  then have tail: "split_on Blank ([Comment '' ISR definitions''] @ concat (map (\<lambda>r. Blank # r) ?recs))
      = [Comment '' ISR definitions''] # ?recs"
    by (simp del: upt_rec_numeral)
  have head: "Blank \<notin> set ?hd" by (auto simp del: upt_rec_numeral)
  have dl: "doc_lines = ?hd @ Blank # ([Comment '' ISR definitions''] @ concat (map (\<lambda>r. Blank # r) ?recs))"
    unfolding doc_lines_eq recs by simp
  have "blocks doc_lines = split_on Blank ?hd @ split_on Blank ([Comment '' ISR definitions''] @ concat (map (\<lambda>r. Blank # r) ?recs))"
    unfolding blocks_def dl by (rule split_on_append)
  also have "split_on Blank ?hd = [?hd]"
    using head by (rule split_on_absent)
  finally show ?thesis unfolding tail by simp
qed

lemma doc_records_eq: "doc_records = map stub_record [0..<32]"
  unfolding doc_records_def blocks_doc_lines by simp

lemma doc_records_nth: "N < 32 \<Longrightarrow> doc_records ! N = stub_record N"
  unfolding doc_records_eq by (simp del: upt_rec_numeral)

lemma decl_block_eq:
  "decl_block =
     [Comment '' A bunch of Interrupt Service Routines (ISRs)'',
      Comment '' For info on each ISR see isr.md in Documentation''] @
     map (\<lambda>i. Global (''isr'' @ str_nat i)) [0..<32]"
  unfolding decl_block_def blocks_doc_lines by simp

subsection \<open>Pushes, labels and declarations\<close>

lemma globals_append: "globals (xs @ ys) = globals xs @ globals ys"
  by (induction xs rule: globals.induct) simp_all

lemma labels_append: "labels (xs @ ys) = labels xs @ labels ys"
  by (induction xs rule: labels.induct) simp_all

lemma globals_map_Global: "globals (map (\<lambda>i. Global (f i)) xs) = map f xs"
  by (induction xs) simp_all

lemma labels_map_Global: "labels (map (\<lambda>i. Global (f i)) xs) = []"
  by (induction xs) simp_all

lemma in_globals: "s \<in> set (globals ls) \<longleftrightarrow> Global s \<in> set ls"
  by (induction ls rule: globals.induct) auto

lemma in_labels: "s \<in> set (labels ls) \<longleftrightarrow> Label s \<in> set ls"
  by (induction ls rule: labels.induct) auto

lemma globals_stub_record: "globals (stub_record i) = []"
proof -
  consider "i = 0" | "i = 8" | "i \<noteq> 0" "i \<noteq> 8" by blast
  then show ?thesis
    by cases (simp_all add: stub_record_0 stub_record_8 stub_record_uniform)
qed

lemma labels_stub_record:
  "labels (stub_record i) = (if i = 0 \<or> i = 8 then [] else [''isr'' @ str_nat i])"
proof -
  consider "i = 0" | "i = 8" | "i \<noteq> 0" "i \<noteq> 8" by blast
  then show ?thesis
    by cases (simp_all add: stub_record_0 stub_record_8 stub_record_uniform)
qed

lemma pushes_stub_record:
  "pushes (stub_record i) = (if i \<in> set eisr then [] else [0]) @ [if i = 8 then 0 else i]"
proof -
  consider "i = 0" | "i = 8" | "i \<noteq> 0" "i \<noteq> 8" by blast
  then show ?thesis
    by cases (simp_all add: stub_record_0 stub_record_8 stub_record_uniform eisr_def)
qed

lemma pushes_stub_record_inj:
  "pushes (stub_record k) = pushes (stub_record n) \<Longrightarrow> k = n"
  by (auto simp: pushes_stub_record eisr_def split: if_splits)

lemma last_stub_record:
  "i \<noteq> 0 \<Longrightarrow> i \<noteq> 8 \<Longrightarrow> last (stub_record i) = Jmp ''isr_common_stub''"
  by (simp add: stub_record_uniform)

lemma concat_map_if:
  "concat (map (\<lambda>i. if P i then [] else [f i]) xs) = map f (filter (\<lambda>i. \<not> P i) xs)"
  by (induction xs) simp_all

lemma labelled_indices: "filter (\<lambda>i. \<not> (i = 0 \<or> i = 8)) [0..<32] = [1..<8] @ [9..<32]"
  by code_simp

lemma globals_doc_lines: "globals doc_lines = map (\<lambda>i. ''isr'' @ str_nat i) [0..<32]"
proof -
  have "globals (concat (map (\<lambda>i. Blank # stub_record i) xs)) = []" for xs
    by (induction xs) (simp_all add: globals_append globals_stub_record)
  then show ?thesis
    unfolding doc_lines_eq by (simp add: globals_append globals_map_Global del: upt_rec_numeral)
qed

lemma labels_doc_lines: "labels doc_lines = map (\<lambda>i. ''isr'' @ str_nat i) ([1..<8] @ [9..<32])"
proof -
  have "labels (concat (map (\<lambda>i. Blank # stub_record i) xs))
        = concat (map (\<lambda>i. if i = 0 \<or> i = 8 then [] else [''isr'' @ str_nat i]) xs)" for xs
    by (induction xs) (simp_all add: labels_append labels_stub_record)
  then have "labels doc_lines = map (\<lambda>i. ''isr'' @ str_nat i) (filter (\<lambda>i. \<not> (i = 0 \<or> i = 8)) [0..<32])"
    unfolding doc_lines_eq
    by (simp add: labels_append labels_map_Global concat_map_if del: upt_rec_numeral)
  then show ?thesis by (simp only: labelled_indices)
qed

lemma str_nat_inj: "str_nat m = str_nat n \<Longrightarrow> m = n"
proof -
  assume "str_nat m = str_nat n"
  then have "parse_nat (str_nat m) = parse_nat (str_nat n)" by (rule arg_cong)
  then show "m = n" by (simp only: parse_nat_str_nat option.inject)
qed

lemma isr_index_names: "map isr_index (map (\<lambda>i. ''isr'' @ str_nat i) xs) = map Some xs"
  by (induction xs) (simp_all add: isr_index_def parse_nat_str_nat)

lemma isr_names_distinct: "distinct xs \<Longrightarrow> distinct (map (\<lambda>i. ''isr'' @ str_nat i) xs)"
  by (rule iffD2 [OF distinct_map]) (auto intro!: inj_onI dest: str_nat_inj)

lemma count_list_distinct: "distinct xs \<Longrightarrow> x \<in> set xs \<Longrightarrow> count_list xs x = 1"
  by (induction xs) (auto simp: count_list_0_iff)

lemma str_nat_0: "str_nat 0 = ''0''" and str_nat_8: "str_nat 8 = ''8''" and str_nat_13: "str_nat 13 = ''13''"
  by (simp_all add: str_nat.simps digit_char_def)

section \<open>The claims\<close>

text \<open>
  Claim C1 (EISR exactness). For every vector index \<open>N\<close> in \<open>[0,31]\<close>, the record of \<open>N\<close> in
  the Output Document has a dummy error-code push before its vector-number push if and
  only if \<open>N\<close> is not in the EISR set: for \<open>N\<close> in the set there is none, for every other
  \<open>N\<close> there is exactly one, of value 0.
\<close>

theorem dummy_push_iff_not_eisr:
  "N < 32 \<Longrightarrow>
   dummy_pushes (doc_records ! N) = (if N \<in> set eisr then [] else [0]) \<and>
   (0 \<in> set (dummy_pushes (doc_records ! N))) = (N \<notin> set eisr)"
  by (simp add: doc_records_nth dummy_pushes_def pushes_stub_record)

theorem dummy_push_iff_not_eisr_witness:
  "(13::nat) < 32 \<and> dummy_pushes (doc_records ! 13) = [] \<and>
   (7::nat) < 32 \<and> dummy_pushes (doc_records ! 7) = [0]"
  using dummy_push_iff_not_eisr [of 13] dummy_push_iff_not_eisr [of 7] by (simp add: eisr_def)

text \<open>
  Claim C2 (stack-shape uniformity), as stated: every record has exactly two explicit
  pushes before the dispatch jump. The record of index 13 has one push only, since the
  script skips the dummy push for the members of \<open>eisr\<close>.
\<close>

theorem two_pushes_counterexample:
  "pushes (doc_records ! 13) = [13] \<and> length (pushes (doc_records ! 13)) \<noteq> 2"
  by (simp add: doc_records_nth pushes_stub_record eisr_def)

text \<open>
  Claim C2, amended. For every \<open>N\<close> in \<open>[0,31]\<close> the record of \<open>N\<close> has two explicit pushes
  when \<open>N\<close> is not in the EISR set, first the dummy error code 0 and then the vector number
  \<open>N\<close>, and one explicit push when \<open>N\<close> is in the EISR set, which for \<open>N \<noteq> 8\<close> is the push of
  \<open>N\<close>; for \<open>N\<close> other than 0 and 8 the record ends with the jump to \<open>isr_common_stub\<close>, so
  the pushes come before it.
\<close>

theorem pushes_per_record:
  "N < 32 \<Longrightarrow>
   length (pushes (doc_records ! N)) = (if N \<in> set eisr then 1 else 2) \<and>
   (N \<noteq> 8 \<longrightarrow> pushes (doc_records ! N) = (if N \<in> set eisr then [N] else [0, N])) \<and>
   (N \<noteq> 0 \<and> N \<noteq> 8 \<longrightarrow> last (doc_records ! N) = Jmp ''isr_common_stub'')"
  by (simp add: doc_records_nth pushes_stub_record last_stub_record)

theorem pushes_per_record_witness:
  "(7::nat) < 32 \<and> pushes (doc_records ! 7) = [0, 7] \<and>
   last (doc_records ! 7) = Jmp ''isr_common_stub'' \<and>
   (13::nat) < 32 \<and> pushes (doc_records ! 13) = [13] \<and>
   last (doc_records ! 13) = Jmp ''isr_common_stub''"
  using pushes_per_record [of 7] pushes_per_record [of 13] by (simp add: eisr_def)

text \<open>
  Claim C3 (every record ends with an unconditional jump to \<open>isr_common_stub\<close>, which the
  document never defines). The document indeed defines no label \<open>isr_common_stub\<close>, but
  the records of indices 0 and 8 end with the single word \<^verbatim>\<open>jmp_isr_common_stub\<close>, written
  with an underscore where the uniform branch writes \<^verbatim>\<open>jmp isr_common_stub\<close>: these two
  records contain no jump to \<open>isr_common_stub\<close> at all.
\<close>

theorem special_records_end_without_jump:
  "last (doc_records ! 0) = Other [''jmp_isr_common_stub''] \<and>
   last (doc_records ! 8) = Other [''jmp_isr_common_stub''] \<and>
   Jmp ''isr_common_stub'' \<notin> set (doc_records ! 0) \<and>
   Jmp ''isr_common_stub'' \<notin> set (doc_records ! 8) \<and>
   last (doc_records ! 1) = Jmp ''isr_common_stub'' \<and>
   Label ''isr_common_stub'' \<notin> set doc_lines"
proof -
  have "''isr_common_stub'' \<noteq> ''isr'' @ str_nat i" for i
  proof
    assume "''isr_common_stub'' = ''isr'' @ str_nat i"
    then have "str_nat i = ''_common_stub''" by simp
    then have "CHR ''_'' \<in> set (str_nat i)" by simp
    then have "is_digit CHR ''_''" by (rule str_nat_chars)
    then show False by (simp add: is_digit_def)
  qed
  then have "''isr_common_stub'' \<notin> set (labels doc_lines)"
    unfolding labels_doc_lines by auto
  then have "Label ''isr_common_stub'' \<notin> set doc_lines"
    by (simp add: in_labels)
  then show ?thesis
    by (simp add: doc_records_nth stub_record_0 stub_record_8 last_stub_record)
qed

text \<open>
  Claim C4 (every record contains a named label, then its normalization instructions and
  the jump). The records of indices 0 and 8 contain no label at all, although the symbols
  \<open>isr0\<close> and \<open>isr8\<close> are declared global and every other record, such as that of index 1,
  starts with its label.
\<close>

theorem special_records_have_no_label:
  "labels (doc_records ! 0) = [] \<and> labels (doc_records ! 8) = [] \<and>
   labels (doc_records ! 1) = [''isr1''] \<and>
   Global ''isr0'' \<in> set doc_lines \<and> Global ''isr8'' \<in> set doc_lines"
proof -
  have "''isr'' @ str_nat 0 \<in> set (globals doc_lines)" "''isr'' @ str_nat 8 \<in> set (globals doc_lines)"
    unfolding globals_doc_lines by (simp_all del: upt_rec_numeral)
  then have "Global ''isr0'' \<in> set doc_lines" "Global ''isr8'' \<in> set doc_lines"
    by (simp_all add: in_globals str_nat_0 str_nat_8)
  then show ?thesis
    by (simp add: doc_records_nth labels_stub_record str_nat.simps digit_char_def)
qed

text \<open>
  Claim C5 (completeness). For every \<open>N\<close> in \<open>[0,31]\<close> the Output Document contains exactly
  one declaration \<open>global isr<N>\<close> and, among its 32 records, exactly one whose body targets
  vector \<open>N\<close>: the body that pushes the literal \<open>N\<close> as vector number, after the dummy push
  when \<open>N\<close> is not in the EISR set, where for \<open>N = 0\<close> and \<open>N = 8\<close> the vector number pushed
  is the special-case literal 0 (so the body of 0 pushes 0 and 0, that of 8 pushes 0
  alone). That one record is the record of index \<open>N\<close>, and no other record has the same
  pushes. By the vector-number push alone the records of 0 and 8 are not told apart: both
  push 0, and no record pushes 8.
\<close>

theorem one_declaration_one_record:
  "N < 32 \<Longrightarrow>
   count_list (globals doc_lines) (''isr'' @ str_nat N) = 1 \<and>
   length doc_records = 32 \<and>
   {k. k < 32 \<and>
       pushes (doc_records ! k) = (if N \<in> set eisr then [] else [0]) @ [if N = 8 then 0 else N]}
     = {N} \<and>
   {k. k < 32 \<and> pushes (doc_records ! k) = pushes (doc_records ! N)} = {N} \<and>
   vector_push (doc_records ! N) = Some (if N = 8 then 0 else N) \<and>
   {k. k < 32 \<and> vector_push (doc_records ! k) = Some N} =
     (if N = 0 then {0, 8} else if N = 8 then {} else {N})"
proof -
  assume N: "N < 32"
  have vp: "vector_push (stub_record k) = Some (if k = 8 then 0 else k)" for k
    by (simp add: vector_push_def pushes_stub_record)
  have "distinct (globals doc_lines)"
    unfolding globals_doc_lines by (rule isr_names_distinct) simp
  moreover have "''isr'' @ str_nat N \<in> set (globals doc_lines)"
    unfolding globals_doc_lines using N by (simp del: upt_rec_numeral)
  ultimately have decl: "count_list (globals doc_lines) (''isr'' @ str_nat N) = 1"
    by (rule count_list_distinct)
  have len: "length doc_records = 32"
    unfolding doc_records_eq by simp
  have same: "{k. k < 32 \<and> pushes (doc_records ! k) = pushes (doc_records ! N)} = {N}"
    using N by (auto simp: doc_records_nth dest: pushes_stub_record_inj)
  then have body: "{k. k < 32 \<and>
       pushes (doc_records ! k) = (if N \<in> set eisr then [] else [0]) @ [if N = 8 then 0 else N]}
     = {N}"
    using N by (simp add: doc_records_nth pushes_stub_record)
  have own: "vector_push (doc_records ! N) = Some (if N = 8 then 0 else N)"
    using N by (simp add: doc_records_nth vp)
  have by_vector: "{k. k < 32 \<and> vector_push (doc_records ! k) = Some N} =
     (if N = 0 then {0, 8} else if N = 8 then {} else {N})"
    using N by (auto simp: doc_records_nth vp split: if_splits)
  from decl len body same own by_vector show ?thesis by blast
qed

theorem one_declaration_one_record_witness:
  "(5::nat) < 32 \<and> count_list (globals doc_lines) ''isr5'' = 1 \<and>
   {k. k < 32 \<and> pushes (doc_records ! k) = [0, 5]} = {5} \<and>
   (0::nat) < 32 \<and> count_list (globals doc_lines) ''isr0'' = 1 \<and>
   {k. k < 32 \<and> pushes (doc_records ! k) = [0, 0]} = {0} \<and>
   (8::nat) < 32 \<and> count_list (globals doc_lines) ''isr8'' = 1 \<and>
   {k. k < 32 \<and> pushes (doc_records ! k) = [0]} = {8}"
  using one_declaration_one_record [of 5] one_declaration_one_record [of 0]
    one_declaration_one_record [of 8]
  by (simp add: eisr_def str_nat.simps digit_char_def)

text \<open>
  Claim C6 (index 8: a documentation comment, an interrupt-disable instruction and exactly
  one push, of the literal 0 and not 8, with no dummy error code, before the jump to the
  shared dispatch stub). The record of index 8 is as the claim says up to its last line,
  which is the word \<^verbatim>\<open>jmp_isr_common_stub\<close> and not a jump to \<open>isr_common_stub\<close>.
\<close>

theorem double_fault_record:
  "doc_records ! 8 =
     [Comment '' Double Fault Exception'', Cli,
      Comment '' We don't push a dummy error code since this interrupt comes with one'',
      Push 0, Other [''jmp_isr_common_stub'']] \<and>
   pushes (doc_records ! 8) = [0] \<and>
   dummy_pushes (doc_records ! 8) = [] \<and>
   Jmp ''isr_common_stub'' \<notin> set (doc_records ! 8)"
  by (simp add: doc_records_nth stub_record_8 dummy_pushes_def)

text \<open>
  Claim C7 (scenario C). Index 13 is in the EISR set, and its record in the Output Document
  is the label \<open>isr13:\<close>, an interrupt-disable instruction, a single push of the literal
  13 and the jump to \<open>isr_common_stub\<close>, with no dummy error-code push.
\<close>

theorem record_13:
  "13 \<in> set eisr \<and>
   doc_records ! 13 = [Label ''isr13'', Cli, Push 13, Jmp ''isr_common_stub''] \<and>
   dummy_pushes (doc_records ! 13) = []"
  by (simp add: doc_records_nth stub_record_uniform dummy_pushes_def eisr_def str_nat_13)

text \<open>
  Claim C8 (ordering). The declarations of the Output Document all stand in its first
  block and name the indices 0, 1, ..., 31 in this order; the records that follow are the
  records of the indices 0, 1, ..., 31 in this order, and the labels they define name the
  indices 1, ..., 7, 9, ..., 31 in this order.
\<close>

theorem blocks_ascending:
  "map isr_index (globals decl_block) = map Some [0..<32] \<and>
   globals doc_lines = globals decl_block \<and>
   doc_records = map stub_record [0..<32] \<and>
   map isr_index (concat (map labels doc_records)) = map Some ([1..<8] @ [9..<32])"
proof -
  have g: "globals decl_block = map (\<lambda>i. ''isr'' @ str_nat i) [0..<32]"
    unfolding decl_block_eq by (simp add: globals_append globals_map_Global del: upt_rec_numeral)
  have "concat (map labels doc_records) =
        map (\<lambda>i. ''isr'' @ str_nat i) (filter (\<lambda>i. \<not> (i = 0 \<or> i = 8)) [0..<32])"
    unfolding doc_records_eq
    by (simp add: comp_def labels_stub_record concat_map_if del: upt_rec_numeral)
  then have l: "concat (map labels doc_records) = map (\<lambda>i. ''isr'' @ str_nat i) ([1..<8] @ [9..<32])"
    by (simp only: labelled_indices)
  show ?thesis
    unfolding g l globals_doc_lines isr_index_names
    by (simp only: doc_records_eq simp_thms)
qed

text \<open>
  Claim C10 (implicit). The Output Document declares \<open>global isr0\<close> and \<open>global isr8\<close> but
  contains no label definition \<open>isr0:\<close> or \<open>isr8:\<close>; the labels it defines are exactly
  \<open>isr<N>\<close> for \<open>N\<close> from 1 to 31 except 8.
\<close>

theorem isr0_isr8_declared_not_defined:
  "Global ''isr0'' \<in> set doc_lines \<and> Global ''isr8'' \<in> set doc_lines \<and>
   Label ''isr0'' \<notin> set doc_lines \<and> Label ''isr8'' \<notin> set doc_lines \<and>
   labels doc_lines = map (\<lambda>N. ''isr'' @ str_nat N) ([1..<8] @ [9..<32])"
proof -
  have "''isr'' @ str_nat 0 \<in> set (globals doc_lines)" "''isr'' @ str_nat 8 \<in> set (globals doc_lines)"
    unfolding globals_doc_lines by (simp_all del: upt_rec_numeral)
  then have g: "Global ''isr0'' \<in> set doc_lines" "Global ''isr8'' \<in> set doc_lines"
    by (simp_all add: in_globals str_nat_0 str_nat_8)
  have "''isr'' @ str_nat 0 \<notin> set (labels doc_lines)" "''isr'' @ str_nat 8 \<notin> set (labels doc_lines)"
    unfolding labels_doc_lines by (auto dest!: str_nat_inj)
  then have l: "Label ''isr0'' \<notin> set doc_lines" "Label ''isr8'' \<notin> set doc_lines"
    by (simp_all add: in_labels str_nat_0 str_nat_8)
  from g l show ?thesis by (simp add: labels_doc_lines)
qed

end
